theory Spec2Isabelle
  imports Complex_Main "HOL-Library.Monad_Syntax"
begin

section \<open>Enterprise license check (apps/web/modules/ee/license-check/lib/license.ts)\<close>

subsection \<open>Configuration\<close>

text \<open>The constant object \<open>CONFIG\<close>; all durations are milliseconds.\<close>

definition FETCH_LICENSE_TTL_MS :: int where
  "FETCH_LICENSE_TTL_MS = 24 * 60 * 60 * 1000"

definition PREVIOUS_RESULT_TTL_MS :: int where
  "PREVIOUS_RESULT_TTL_MS = 4 * 24 * 60 * 60 * 1000"

definition GRACE_PERIOD_MS :: int where
  "GRACE_PERIOD_MS = 3 * 24 * 60 * 60 * 1000"

definition MAX_RETRIES :: nat where
  "MAX_RETRIES = 3"

definition RETRY_DELAY_MS :: nat where
  "RETRY_DELAY_MS = 1000"

definition TIMEOUT_MS :: nat where
  "TIMEOUT_MS = 5000"

text \<open>
  The part of the process environment the module reads: \<open>env.ENTERPRISE_LICENSE_KEY\<close>,
  \<open>process.env.NEXT_PHASE\<close>, \<open>env.ENVIRONMENT\<close>, the two proxy settings and the
  constant \<open>E2E_TESTING\<close>. An unset variable is \<open>None\<close>.
\<close>

record env =
  ENTERPRISE_LICENSE_KEY :: "string option"
  NEXT_PHASE :: "string option"
  ENVIRONMENT :: "string option"
  HTTPS_PROXY :: "string option"
  HTTP_PROXY :: "string option"
  E2E_TESTING :: bool

definition ENDPOINT :: "env \<Rightarrow> string" where
  "ENDPOINT e =
     (if ENVIRONMENT e = Some ''staging''
      then ''https://staging.ee.formbricks.com/api/licenses/check''
      else ''https://ee.formbricks.com/api/licenses/check'')"

text \<open>
  JavaScript truthiness of an optional string, as tested by \<open>!env.ENTERPRISE_LICENSE_KEY\<close>
  and \<open>!instanceId\<close>: \<open>undefined\<close>, \<open>null\<close> and the empty string are falsy.
\<close>

definition truthy :: "string option \<Rightarrow> bool" where
  "truthy s = (case s of None \<Rightarrow> False | Some t \<Rightarrow> t \<noteq> [])"

definition build_phase :: "env \<Rightarrow> bool" where
  "build_phase e = (NEXT_PHASE e = Some ''phase-production-build'')"

subsection \<open>Types\<close>

text \<open>
  A JavaScript number: a finite value, \<open>Infinity\<close> (which \<open>getEnterpriseLicense\<close> and
  \<open>getLicenseFeatures\<close> write literally, and which \<open>JSON.parse\<close> yields for a literal
  beyond the range of a double, such as \<open>1e309\<close>) or \<open>-Infinity\<close>. Finite values are
  kept exact (rationals); rounding is outside this model. \<open>NaN\<close> is left out: no JSON
  text denotes it and \<open>z.number()\<close> refuses it.
\<close>

datatype number = Finite rat | Infinity | NegInfinity

record TEnterpriseLicenseFeatures =
  isMultiOrgEnabled :: bool
  projects :: "number option"
  twoFactorAuth :: bool
  sso :: bool
  whitelabel :: bool
  removeBranding :: bool
  contacts :: bool
  ai :: bool
  saml :: bool
  spamProtection :: bool
  auditLogs :: bool
  multiLanguageSurveys :: bool
  accessControl :: bool
  quotas :: bool

datatype license_status = Active | Expired

record TEnterpriseLicenseDetails =
  status :: license_status
  features :: TEnterpriseLicenseFeatures

datatype FallbackLevel = Live | Cached | Grace | Default

datatype TEnterpriseLicenseStatusReturn =
  StatusActive | StatusExpired | StatusUnreachable | StatusNoLicense

text \<open>Instants (\<open>Date\<close>) are milliseconds since the epoch.\<close>

type_synonym instant = int

record TEnterpriseLicenseResult =
  active :: bool
  features :: "TEnterpriseLicenseFeatures option"
  lastChecked :: instant
  isPendingDowngrade :: bool
  fallbackLevel :: FallbackLevel
  status :: TEnterpriseLicenseStatusReturn

subsection \<open>Values of type \<open>unknown\<close> and the validation schemas\<close>

text \<open>
  What \<open>res.json()\<close> can deliver, plus \<open>undefined\<close> for a property that is absent. An
  object is its list of key/value pairs, read with \<open>map_of\<close>. A number is finite, or
  infinite when the literal overflows.
\<close>

datatype jsval =
  JUndefined
  | JNull
  | JBool bool
  | JNum number
  | JStr string
  | JArr "jsval list"
  | JObj "(string \<times> jsval) list"

text \<open>
  Exceptions. \<open>LicenseApiError\<close> is the module's own class (message, status; its code is
  always \<open>API_ERROR\<close>) and is not exported. \<open>ZodError\<close> is what \<open>Schema.parse\<close> throws.
  Everything thrown by a collaborator (database, instance lookup, \<open>node-fetch\<close>, the JSON
  parser, the runtime) is an \<open>External\<close> error.
\<close>

datatype ext_error =
  AbortError
  | FetchError string
  | DatabaseError string
  | SyntaxError
  | TypeError

datatype exn =
  LicenseApiError string nat
  | ZodError
  | External ext_error

definition field :: "(string \<times> jsval) list \<Rightarrow> string \<Rightarrow> jsval" where
  "field kvs k = (case map_of kvs k of None \<Rightarrow> JUndefined | Some v \<Rightarrow> v)"

text \<open>
  \<open>z.boolean()\<close>, \<open>z.number().nullable()\<close> and \<open>z.enum(["active", "expired"])\<close>.
  \<open>z.number()\<close> takes every number, the infinite ones included.
\<close>

definition z_boolean :: "jsval \<Rightarrow> bool option" where
  "z_boolean v = (case v of JBool b \<Rightarrow> Some b | _ \<Rightarrow> None)"

definition z_number_nullable :: "jsval \<Rightarrow> number option option" where
  "z_number_nullable v =
     (case v of JNull \<Rightarrow> Some None | JNum n \<Rightarrow> Some (Some n) | _ \<Rightarrow> None)"

definition z_enum_status :: "jsval \<Rightarrow> license_status option" where
  "z_enum_status v =
     (case v of
        JStr s \<Rightarrow>
          (if s = ''active'' then Some Active
           else if s = ''expired'' then Some Expired
           else None)
      | _ \<Rightarrow> None)"

text \<open>
  \<open>LicenseFeaturesSchema\<close>: a \<open>z.object\<close> accepts an object only, reads each key of its
  shape (an absent key reads as \<open>undefined\<close>), fails when any field fails, and returns
  the parsed fields alone (unknown keys are dropped).
\<close>

definition LicenseFeaturesSchema :: "jsval \<Rightarrow> TEnterpriseLicenseFeatures option" where
  "LicenseFeaturesSchema v =
     (case v of
        JObj kvs \<Rightarrow>
          do {
            f1 \<leftarrow> z_boolean (field kvs ''isMultiOrgEnabled'');
            f2 \<leftarrow> z_number_nullable (field kvs ''projects'');
            f3 \<leftarrow> z_boolean (field kvs ''twoFactorAuth'');
            f4 \<leftarrow> z_boolean (field kvs ''sso'');
            f5 \<leftarrow> z_boolean (field kvs ''whitelabel'');
            f6 \<leftarrow> z_boolean (field kvs ''removeBranding'');
            f7 \<leftarrow> z_boolean (field kvs ''contacts'');
            f8 \<leftarrow> z_boolean (field kvs ''ai'');
            f9 \<leftarrow> z_boolean (field kvs ''saml'');
            f10 \<leftarrow> z_boolean (field kvs ''spamProtection'');
            f11 \<leftarrow> z_boolean (field kvs ''auditLogs'');
            f12 \<leftarrow> z_boolean (field kvs ''multiLanguageSurveys'');
            f13 \<leftarrow> z_boolean (field kvs ''accessControl'');
            f14 \<leftarrow> z_boolean (field kvs ''quotas'');
            Some \<lparr>isMultiOrgEnabled = f1, projects = f2, twoFactorAuth = f3, sso = f4,
                  whitelabel = f5, removeBranding = f6, contacts = f7, ai = f8, saml = f9,
                  spamProtection = f10, auditLogs = f11, multiLanguageSurveys = f12,
                  accessControl = f13, quotas = f14\<rparr>
          }
      | _ \<Rightarrow> None)"

definition LicenseDetailsSchema :: "jsval \<Rightarrow> TEnterpriseLicenseDetails option" where
  "LicenseDetailsSchema v =
     (case v of
        JObj kvs \<Rightarrow>
          do {
            s \<leftarrow> z_enum_status (field kvs ''status'');
            f \<leftarrow> LicenseFeaturesSchema (field kvs ''features'');
            Some \<lparr>TEnterpriseLicenseDetails.status = s,
                  TEnterpriseLicenseDetails.features = f\<rparr>
          }
      | _ \<Rightarrow> None)"

text \<open>\<open>validateLicenseDetails\<close>: \<open>LicenseDetailsSchema.parse(data)\<close> returns or throws.\<close>

definition validateLicenseDetails :: "jsval \<Rightarrow> exn + TEnterpriseLicenseDetails" where
  "validateLicenseDetails data =
     (case LicenseDetailsSchema data of None \<Rightarrow> Inl ZodError | Some d \<Rightarrow> Inr d)"

subsection \<open>Collaborators and observable effects\<close>

text \<open>A \<open>node-fetch\<close> response: its status code and what \<open>res.json()\<close> yields or throws.\<close>

record response =
  code :: nat
  json :: "ext_error + jsval"

definition ok :: "response \<Rightarrow> bool" where
  "ok res = (200 \<le> code res \<and> code res < 300)"

text \<open>
  What the outside world does during one invocation of \<open>fetchLicenseFromServerInternal\<close>:
  the result of \<open>getInstanceId()\<close>, of \<open>prisma.response.count\<close>, the time both took, and
  the result of \<open>fetch\<close> (a response, or an exception such as the abort after
  \<open>TIMEOUT_MS\<close> or a connection failure).
\<close>

record attempt =
  instance_id :: "ext_error + string option"
  response_count :: "ext_error + nat"
  gather_duration :: nat
  fetch_result :: "ext_error + response"

text \<open>The request handed to \<open>fetch\<close>: URL, JSON payload, proxy agent and abort timer.\<close>

record request =
  url :: string
  licenseKey :: "string option"
  responseCount :: nat
  instanceId :: "string option"
  agent :: "string option"
  timeoutMs :: nat

text \<open>Everything an invocation does that can be observed from outside, in order.\<close>

datatype event =
  GetInstanceId
  | CountResponses
  | LogWarn nat nat
  | HttpPost request
  | LogDebug license_status string nat
  | LogApiError nat string string
  | Sleep nat
  | LogError exn
  | WithCache int

fun digits :: "nat \<Rightarrow> string" where
  "digits n =
     (if n < 10 then [char_of (48 + n)]
      else digits (n div 10) @ [char_of (48 + n mod 10)])"

declare digits.simps [simp del]

text \<open>\<open>trackApiError\<close>: one error-level log line with status, code and message.\<close>

definition trackApiError :: "exn \<Rightarrow> event list" where
  "trackApiError error =
     (case error of
        LicenseApiError message st \<Rightarrow> [LogApiError st ''API_ERROR'' message]
      | _ \<Rightarrow> [])"

text \<open>
  \<open>Promise.all([E2E_TESTING ? null : getInstanceId(), prisma.response.count(...)])\<close>:
  both lookups are started; the result is the pair, or the exception of one that failed.
\<close>

definition gather :: "env \<Rightarrow> attempt \<Rightarrow> (ext_error + string option \<times> nat) \<times> event list" where
  "gather e a =
     (let evs = (if E2E_TESTING e then [] else [GetInstanceId]) @ [CountResponses];
          first = (if E2E_TESTING e then Inr None else instance_id a)
      in case first of
           Inl x \<Rightarrow> (Inl x, evs)
         | Inr i \<Rightarrow>
             (case response_count a of
                Inl x \<Rightarrow> (Inl x, evs)
              | Inr n \<Rightarrow> (Inr (i, n), evs)))"

text \<open>\<open>env.HTTPS_PROXY ?? env.HTTP_PROXY\<close>, then \<open>proxyUrl ? new HttpsProxyAgent(proxyUrl) : undefined\<close>.\<close>

definition proxy_agent :: "env \<Rightarrow> string option" where
  "proxy_agent e =
     (let proxyUrl = (case HTTPS_PROXY e of None \<Rightarrow> HTTP_PROXY e | Some u \<Rightarrow> Some u)
      in if truthy proxyUrl then proxyUrl else None)"

definition build_request :: "env \<Rightarrow> string option \<Rightarrow> nat \<Rightarrow> request" where
  "build_request e i n =
     \<lparr>url = ENDPOINT e,
      licenseKey = ENTERPRISE_LICENSE_KEY e,
      responseCount = n,
      instanceId = (if truthy i then i else None),
      agent = proxy_agent e,
      timeoutMs = TIMEOUT_MS\<rparr>"

text \<open>
  \<open>responseJson.data\<close>: reading a property of \<open>null\<close> throws a \<open>TypeError\<close>; on an object
  it is the value of the key or \<open>undefined\<close>; on any other value it is \<open>undefined\<close>.
\<close>

definition data_of :: "jsval \<Rightarrow> ext_error + jsval" where
  "data_of v =
     (case v of
        JNull \<Rightarrow> Inl TypeError
      | JUndefined \<Rightarrow> Inl TypeError
      | JObj kvs \<Rightarrow> Inr (field kvs ''data'')
      | _ \<Rightarrow> Inr JUndefined)"

definition retryable :: "nat \<Rightarrow> bool" where
  "retryable st = (st \<in> set [429, 502, 503, 504])"

subsection \<open>\<open>fetchLicenseFromServerInternal\<close>\<close>

text \<open>
  How the guarded block of one invocation ends: with a \<open>return\<close> of a value, with an
  exception that reaches the \<open>catch\<close> clause, or with the recursive call
  \<open>return fetchLicenseFromServerInternal(retryCount + 1)\<close>.
\<close>

datatype step =
  Returned "TEnterpriseLicenseDetails option"
  | Thrown exn
  | Retry

text \<open>The body of the \<open>try\<close> block (lines 146 to 226), statement by statement.\<close>

definition tryBlock :: "env \<Rightarrow> attempt \<Rightarrow> nat \<Rightarrow> step \<times> event list" where
  "tryBlock e a retryCount =
     (case gather e a of
        (Inl x, evs0) \<Rightarrow> (Thrown (External x), evs0)
      | (Inr (i, n), evs0) \<Rightarrow>
          (let evs1 = evs0 @ (if gather_duration a > 1000 then [LogWarn (gather_duration a) n] else [])
           in if \<not> E2E_TESTING e \<and> \<not> truthy i then (Returned None, evs1)
              else
                (let evs2 = evs1 @ [HttpPost (build_request e i n)]
                 in case fetch_result a of
                      Inl x \<Rightarrow> (Thrown (External x), evs2)
                    | Inr res \<Rightarrow>
                        if ok res then
                          (case json res of
                             Inl x \<Rightarrow> (Thrown (External x), evs2)
                           | Inr responseJson \<Rightarrow>
                               (case data_of responseJson of
                                  Inl x \<Rightarrow> (Thrown (External x), evs2)
                                | Inr d \<Rightarrow>
                                    (case validateLicenseDetails d of
                                       Inl z \<Rightarrow> (Thrown z, evs2)
                                     | Inr licenseDetails \<Rightarrow>
                                         (Returned (Some licenseDetails),
                                          evs2 @ [LogDebug (TEnterpriseLicenseDetails.status licenseDetails)
                                                    (case i of None \<Rightarrow> ''not-set'' | Some s \<Rightarrow> s) n]))))
                        else
                          (let error = LicenseApiError
                                 (''License check API responded with status: '' @ digits (code res))
                                 (code res);
                               evs3 = evs2 @ trackApiError error
                           in if retryCount < MAX_RETRIES \<and> retryable (code res)
                              then (Retry, evs3 @ [Sleep (RETRY_DELAY_MS * 2 ^ retryCount)])
                              else (Returned None, evs3)))))"

lemma tryBlock_Retry_bound:
  "tryBlock e a retryCount = (Retry, evs) \<Longrightarrow> retryCount < MAX_RETRIES"
  by (auto simp: tryBlock_def Let_def split: prod.splits sum.splits if_splits)

text \<open>
  The function itself. \<open>w n\<close> is what the world does during the invocation whose
  \<open>retryCount\<close> is \<open>n\<close>. The result is the settled promise (\<open>Inl\<close>: rejected with that
  exception; \<open>Inr None\<close>: resolved to \<open>null\<close>) and the effects in order.
\<close>

function fetchLicenseFromServerInternal ::
  "env \<Rightarrow> (nat \<Rightarrow> attempt) \<Rightarrow> nat \<Rightarrow> (exn + TEnterpriseLicenseDetails option) \<times> event list"
where
  "fetchLicenseFromServerInternal e w retryCount =
     (if \<not> truthy (ENTERPRISE_LICENSE_KEY e) then (Inr None, [])
      else if build_phase e then (Inr None, [])
      else
        (case tryBlock e (w retryCount) retryCount of
           (Returned v, evs) \<Rightarrow> (Inr v, evs)
         | (Retry, evs) \<Rightarrow>
             (case fetchLicenseFromServerInternal e w (retryCount + 1) of
                (r, evs') \<Rightarrow> (r, evs @ evs'))
         | (Thrown x, evs) \<Rightarrow>
             (case x of
                LicenseApiError m st \<Rightarrow> (Inl x, evs)
              | _ \<Rightarrow> (Inr None, evs @ [LogError x]))))"
  by pat_completeness auto
termination
  by (relation "measure (\<lambda>(e, w, retryCount). MAX_RETRIES - retryCount)")
     (auto dest: tryBlock_Retry_bound [OF sym])

declare fetchLicenseFromServerInternal.simps [simp del]

subsection \<open>Module and process state\<close>

text \<open>
  Modelled from the spec: a \<open>CacheEntry\<close> of the cache module (\<open>@/lib/cache\<close>, which is
  not part of this file). Section 3 gives it as a value and the instant the value was
  stored at.
\<close>

type_synonym cache_entry = "TEnterpriseLicenseDetails \<times> instant"

text \<open>
  The state a call can depend on: the environment, the clock, what the authority would
  answer, the two cache slots (\<open>fresh_entry\<close> with \<open>FETCH_LICENSE_TTL_MS\<close>,
  \<open>previous_entry\<close> with \<open>PREVIOUS_RESULT_TTL_MS\<close>), the module variable
  \<open>fetchLicensePromise\<close> (the in-flight promise, named by its number; \<open>promises\<close> counts
  the ones created so far) and the memo cell that \<open>reactCache\<close> keeps for
  \<open>getEnterpriseLicense\<close>.
\<close>

record world =
  environment :: env
  now :: instant
  authority :: "nat \<Rightarrow> attempt"
  fresh_entry :: "cache_entry option"
  previous_entry :: "cache_entry option"
  fetchLicensePromise :: "nat option"
  promises :: nat
  memo :: "TEnterpriseLicenseResult option"

subsection \<open>\<open>fetchLicense\<close>\<close>

text \<open>
  What a caller of \<open>fetchLicense\<close> holds: a promise already resolved to \<open>null\<close>, or one
  that settles as the numbered in-flight promise does.
\<close>

datatype fetch_return = ResolvesNull | Follows nat

text \<open>
  \<open>fetchLicense\<close> up to its \<open>return\<close>; there is no \<open>await\<close> on the way, so the body runs
  without interruption. Starting the immediately invoked \<open>async\<close> function calls
  \<open>cache.withCache\<close> once with \<open>fetchLicenseFromServerInternal\<close> as producer.
\<close>

definition fetchLicense :: "world \<Rightarrow> fetch_return \<times> event list \<times> world" where
  "fetchLicense w =
     (if \<not> truthy (ENTERPRISE_LICENSE_KEY (environment w)) then (ResolvesNull, [], w)
      else if build_phase (environment w) then (ResolvesNull, [], w)
      else
        (case fetchLicensePromise w of
           Some p \<Rightarrow> (Follows p, [], w)
         | None \<Rightarrow>
             (let p = promises w
              in (Follows p, [WithCache FETCH_LICENSE_TTL_MS],
                  w\<lparr>fetchLicensePromise := Some p, promises := p + 1\<rparr>))))"

text \<open>The \<open>finally\<close> callback, run when the in-flight promise has settled either way.\<close>

definition finally_callback :: "world \<Rightarrow> world" where
  "finally_callback w = w\<lparr>fetchLicensePromise := None\<rparr>"

text \<open>
  A schedule: calls of \<open>fetchLicense\<close> and settlements of the in-flight promise, in the
  order the event loop runs them.
\<close>

datatype action = Call | Settle

fun run :: "action list \<Rightarrow> world \<Rightarrow> fetch_return list \<times> event list \<times> world" where
  "run [] w = ([], [], w)"
| "run (Call # as) w =
     (case fetchLicense w of
        (r, evs, w') \<Rightarrow>
          (case run as w' of (rs, evs', w'') \<Rightarrow> (r # rs, evs @ evs', w'')))"
| "run (Settle # as) w = run as (finally_callback w)"

subsection \<open>\<open>getEnterpriseLicense\<close> and \<open>getLicenseFeatures\<close>\<close>

text \<open>The function wrapped by \<open>reactCache\<close> (lines 269 to 291): its value and its effects.\<close>

definition getEnterpriseLicense_body :: "world \<Rightarrow> TEnterpriseLicenseResult \<times> event list" where
  "getEnterpriseLicense_body w =
     (\<lparr>active = True,
       features = Some
         \<lparr>isMultiOrgEnabled = True,
          projects = Some Infinity,
          twoFactorAuth = True,
          sso = True,
          whitelabel = True,
          removeBranding = True,
          contacts = True,
          ai = True,
          saml = True,
          spamProtection = True,
          auditLogs = True,
          multiLanguageSurveys = True,
          accessControl = True,
          quotas = True\<rparr>,
       lastChecked = now w,
       isPendingDowngrade = False,
       fallbackLevel = Live,
       status = StatusActive\<rparr>, [])"

text \<open>
  \<open>reactCache\<close>: within its scope the first call runs the function and keeps the result;
  later calls return the kept result.
\<close>

definition reactCache ::
  "(world \<Rightarrow> TEnterpriseLicenseResult \<times> event list) \<Rightarrow> world
     \<Rightarrow> TEnterpriseLicenseResult \<times> event list \<times> world" where
  "reactCache f w =
     (case memo w of
        Some r \<Rightarrow> (r, [], w)
      | None \<Rightarrow> (case f w of (r, evs) \<Rightarrow> (r, evs, w\<lparr>memo := Some r\<rparr>)))"

definition getEnterpriseLicense :: "world \<Rightarrow> TEnterpriseLicenseResult \<times> event list \<times> world" where
  "getEnterpriseLicense = reactCache getEnterpriseLicense_body"

definition getLicenseFeatures :: "world \<Rightarrow> TEnterpriseLicenseFeatures option \<times> event list" where
  "getLicenseFeatures w =
     (Some
        \<lparr>isMultiOrgEnabled = True,
         projects = Some Infinity,
         twoFactorAuth = True,
         sso = True,
         whitelabel = True,
         removeBranding = True,
         contacts = True,
         ai = True,
         saml = True,
         spamProtection = True,
         auditLogs = True,
         multiLanguageSurveys = True,
         accessControl = True,
         quotas = True\<rparr>, [])"

text \<open>
  The memo cell is written by \<open>reactCache\<close> alone, so what it holds is a result of the
  wrapped function at the instant recorded in it.
\<close>

definition memo_ok :: "world \<Rightarrow> bool" where
  "memo_ok w =
     (case memo w of
        None \<Rightarrow> True
      | Some r \<Rightarrow> r = fst (getEnterpriseLicense_body (w\<lparr>now := lastChecked r\<rparr>)))"

text \<open>\<open>n\<close> calls of \<open>getEnterpriseLicense\<close> one after the other, and all their effects.\<close>

fun resolve_many :: "nat \<Rightarrow> world \<Rightarrow> TEnterpriseLicenseResult list \<times> event list \<times> world" where
  "resolve_many 0 w = ([], [], w)"
| "resolve_many (Suc n) w =
     (case getEnterpriseLicense w of
        (r, evs, w') \<Rightarrow>
          (case resolve_many n w' of (rs, evs', w'') \<Rightarrow> (r # rs, evs @ evs', w'')))"

subsection \<open>Observations on effects and states\<close>

definition is_network :: "event \<Rightarrow> bool" where
  "is_network ev = (case ev of HttpPost _ \<Rightarrow> True | _ \<Rightarrow> False)"

definition network_calls :: "event list \<Rightarrow> nat" where
  "network_calls evs = length (filter is_network evs)"

definition sleeps :: "event list \<Rightarrow> nat list" where
  "sleeps evs = concat (map (\<lambda>ev. case ev of Sleep ms \<Rightarrow> [ms] | _ \<Rightarrow> []) evs)"

text \<open>The requests and the sleeps of a run, in the order they happen.\<close>

datatype tick = Request | Wait nat

definition timeline :: "event list \<Rightarrow> tick list" where
  "timeline evs =
     concat (map (\<lambda>ev. case ev of HttpPost _ \<Rightarrow> [Request] | Sleep ms \<Rightarrow> [Wait ms] | _ \<Rightarrow> []) evs)"

definition producer_starts :: "event list \<Rightarrow> nat" where
  "producer_starts evs =
     length (filter (\<lambda>ev. case ev of WithCache _ \<Rightarrow> True | _ \<Rightarrow> False) evs)"

text \<open>
  The invocation with this \<open>retryCount\<close> gets as far as an HTTP response: both lookups
  succeed and the instance identity is usable (or the run is an end-to-end test).
\<close>

definition responds :: "env \<Rightarrow> attempt \<Rightarrow> response \<Rightarrow> bool" where
  "responds e a res =
     ((case gather e a of
         (Inl x, evs) \<Rightarrow> False
       | (Inr (i, n), evs) \<Rightarrow> E2E_TESTING e \<or> truthy i)
      \<and> fetch_result a = Inr res)"

text \<open>No invocation of one check (retry counts 0 to \<open>MAX_RETRIES\<close>) gets a response from \<open>fetch\<close>.\<close>

definition unreachable :: "world \<Rightarrow> bool" where
  "unreachable w =
     list_all (\<lambda>n. isl (fetch_result (authority w n))) [0 ..< Suc MAX_RETRIES]"

text \<open>
  From this \<open>retryCount\<close> on, no invocation of the check gets a 2xx response: each
  \<open>fetch\<close> fails (abort on timeout, connection error) or answers with another status.
\<close>

definition no_success :: "(nat \<Rightarrow> attempt) \<Rightarrow> nat \<Rightarrow> bool" where
  "no_success w retryCount =
     list_all (\<lambda>n. case fetch_result (w n) of Inl x \<Rightarrow> True | Inr res \<Rightarrow> \<not> ok res)
       [retryCount ..< Suc MAX_RETRIES]"





subsection \<open>Sample inputs\<close>

definition env_licensed :: env where
  "env_licensed =
     \<lparr>ENTERPRISE_LICENSE_KEY = Some ''license-key'',
      NEXT_PHASE = None,
      ENVIRONMENT = None,
      HTTPS_PROXY = None,
      HTTP_PROXY = None,
      E2E_TESTING = False\<rparr>"

definition env_unlicensed :: env where
  "env_unlicensed = env_licensed\<lparr>ENTERPRISE_LICENSE_KEY := None\<rparr>"

definition env_build :: env where
  "env_build = env_licensed\<lparr>NEXT_PHASE := Some ''phase-production-build''\<rparr>"

definition sample_features :: jsval where
  "sample_features =
     JObj
       [(''isMultiOrgEnabled'', JBool True),
        (''projects'', JNum (Finite 3)),
        (''twoFactorAuth'', JBool True),
        (''sso'', JBool False),
        (''whitelabel'', JBool True),
        (''removeBranding'', JBool True),
        (''contacts'', JBool False),
        (''ai'', JBool True),
        (''saml'', JBool False),
        (''spamProtection'', JBool True),
        (''auditLogs'', JBool True),
        (''multiLanguageSurveys'', JBool True),
        (''accessControl'', JBool True),
        (''quotas'', JBool False)]"

definition sample_data :: jsval where
  "sample_data = JObj [(''status'', JStr ''active''), (''features'', sample_features)]"

definition sample_details :: TEnterpriseLicenseDetails where
  "sample_details =
     \<lparr>TEnterpriseLicenseDetails.status = Active,
      TEnterpriseLicenseDetails.features =
        \<lparr>isMultiOrgEnabled = True, projects = Some (Finite 3), twoFactorAuth = True,
         sso = False, whitelabel = True, removeBranding = True, contacts = False, ai = True,
         saml = False, spamProtection = True, auditLogs = True, multiLanguageSurveys = True,
         accessControl = True, quotas = False\<rparr>\<rparr>"



text \<open>A body the schema rejects: the status is outside the enumeration.\<close>

definition revoked_data :: jsval where
  "revoked_data = JObj [(''status'', JStr ''revoked''), (''features'', sample_features)]"

definition response_with :: "nat \<Rightarrow> jsval \<Rightarrow> response" where
  "response_with c body = \<lparr>code = c, json = Inr (JObj [(''data'', body)])\<rparr>"

definition reply :: "nat \<Rightarrow> jsval \<Rightarrow> ext_error + response" where
  "reply c body = Inr (response_with c body)"

definition attempt_with :: "ext_error + response \<Rightarrow> attempt" where
  "attempt_with r =
     \<lparr>instance_id = Inr (Some ''instance-1''),
      response_count = Inr 42,
      gather_duration = 10,
      fetch_result = r\<rparr>"

definition always :: "attempt \<Rightarrow> nat \<Rightarrow> attempt" where
  "always a n = a"

definition world_of :: "env \<Rightarrow> (nat \<Rightarrow> attempt) \<Rightarrow> world" where
  "world_of e auth =
     \<lparr>environment = e,
      now = 0,
      authority = auth,
      fresh_entry = None,
      previous_entry = None,
      fetchLicensePromise = None,
      promises = 0,
      memo = None\<rparr>"

text \<open>A deployment whose last verification was stored at instant 0 and whose authority no longer answers.\<close>

definition world_offline :: "instant \<Rightarrow> world" where
  "world_offline t =
     (world_of env_licensed (always (attempt_with (Inl (FetchError ''ECONNREFUSED'')))))
       \<lparr>now := t,
        fresh_entry := Some (sample_details, 0),
        previous_entry := Some (sample_details, 0)\<rparr>"

section \<open>Properties\<close>

subsection \<open>The memo cell of \<open>reactCache\<close>\<close>

text \<open>
  A fresh scope has an empty cell, and every operation of the module keeps the cell in
  order, so \<open>memo_ok\<close> holds in every state the program reaches.
\<close>

lemma memo_ok_initial: "memo w = None \<Longrightarrow> memo_ok w"
  by (simp add: memo_ok_def)

lemma getEnterpriseLicense_memo_ok:
  "memo_ok w \<Longrightarrow> memo_ok (snd (snd (getEnterpriseLicense w)))"
  by (auto simp: memo_ok_def getEnterpriseLicense_def reactCache_def
      getEnterpriseLicense_body_def split: option.splits)

lemma fetchLicense_memo_ok: "memo_ok w \<Longrightarrow> memo_ok (snd (snd (fetchLicense w)))"
  by (auto simp: memo_ok_def fetchLicense_def Let_def getEnterpriseLicense_body_def
      split: option.splits)

lemma finally_callback_memo_ok: "memo_ok w \<Longrightarrow> memo_ok (finally_callback w)"
  by (auto simp: memo_ok_def finally_callback_def getEnterpriseLicense_body_def
      split: option.splits)

lemma getEnterpriseLicense_result:
  assumes "memo_ok w"
  shows "\<exists>t. getEnterpriseLicense w =
           (fst (getEnterpriseLicense_body (w\<lparr>now := t\<rparr>)), [],
            w\<lparr>memo := Some (fst (getEnterpriseLicense_body (w\<lparr>now := t\<rparr>)))\<rparr>)"
proof (cases "memo w")
  case None
  then have "getEnterpriseLicense w =
      (fst (getEnterpriseLicense_body (w\<lparr>now := now w\<rparr>)), [],
       w\<lparr>memo := Some (fst (getEnterpriseLicense_body (w\<lparr>now := now w\<rparr>)))\<rparr>)"
    by (simp add: getEnterpriseLicense_def reactCache_def getEnterpriseLicense_body_def)
  then show ?thesis by blast
next
  case (Some r)
  with assms have r: "r = fst (getEnterpriseLicense_body (w\<lparr>now := lastChecked r\<rparr>))"
    by (simp add: memo_ok_def)
  from Some have "getEnterpriseLicense w = (r, [], w)"
    by (simp add: getEnterpriseLicense_def reactCache_def)
  moreover from Some have "w = w\<lparr>memo := Some r\<rparr>" by simp
  ultimately have "getEnterpriseLicense w =
      (fst (getEnterpriseLicense_body (w\<lparr>now := lastChecked r\<rparr>)), [],
       w\<lparr>memo := Some (fst (getEnterpriseLicense_body (w\<lparr>now := lastChecked r\<rparr>)))\<rparr>)"
    using r by metis
  then show ?thesis by blast
qed

lemma network_calls_Nil: "network_calls [] = 0"
  by (simp add: network_calls_def)

lemma world_offline_facts:
  "unreachable (world_offline t)"
  "previous_entry (world_offline t) = Some (sample_details, 0)"
  "TEnterpriseLicenseDetails.status sample_details = Active"
  "memo_ok (world_offline t)"
  "now (world_offline t) = t"
  by (simp_all add: unreachable_def world_offline_def world_of_def always_def attempt_with_def
      MAX_RETRIES_def list_all_iff sample_details_def memo_ok_def)

subsection \<open>License resolution: \<open>getEnterpriseLicense\<close> and \<open>getLicenseFeatures\<close>\<close>

text \<open>
  C1, as the specification states it: with no license key configured the result has status
  \<open>no-license\<close> and \<open>active = false\<close>. It fails for a deployment without a key: the
  function returns its fixed result, whose status is \<open>active\<close>.
\<close>

theorem C1_no_license_counterexample:
  "\<not> truthy (ENTERPRISE_LICENSE_KEY (environment (world_of env_unlicensed (always (attempt_with (reply 200 sample_data))))))
   \<and> \<not> (status (fst (getEnterpriseLicense (world_of env_unlicensed (always (attempt_with (reply 200 sample_data)))))) = StatusNoLicense
        \<and> active (fst (getEnterpriseLicense (world_of env_unlicensed (always (attempt_with (reply 200 sample_data)))))) = False)"
  by (simp add: world_of_def env_unlicensed_def env_licensed_def truthy_def
      getEnterpriseLicense_def reactCache_def getEnterpriseLicense_body_def)

text \<open>
  C1, amended: whenever no license key is configured, \<open>getEnterpriseLicense\<close> returns
  status \<open>active\<close> with \<open>active = true\<close>, and performs no network call.
\<close>

theorem C1_no_key_reports_active:
  assumes "\<not> truthy (ENTERPRISE_LICENSE_KEY (environment w))" and "memo_ok w"
  shows "case getEnterpriseLicense w of
           (r, evs, w') \<Rightarrow> status r = StatusActive \<and> active r \<and> network_calls evs = 0"
proof -
  obtain t where "getEnterpriseLicense w =
      (fst (getEnterpriseLicense_body (w\<lparr>now := t\<rparr>)), [],
       w\<lparr>memo := Some (fst (getEnterpriseLicense_body (w\<lparr>now := t\<rparr>)))\<rparr>)"
    using getEnterpriseLicense_result [OF assms(2)] by blast
  then show ?thesis
    by (simp add: getEnterpriseLicense_body_def network_calls_Nil)
qed

text \<open>C1, amended, at a deployment without a key.\<close>

theorem C1_no_key_reports_active_witness:
  "\<not> truthy (ENTERPRISE_LICENSE_KEY (environment (world_of env_unlicensed (always (attempt_with (reply 200 sample_data))))))
   \<and> memo_ok (world_of env_unlicensed (always (attempt_with (reply 200 sample_data))))
   \<and> status (fst (getEnterpriseLicense (world_of env_unlicensed (always (attempt_with (reply 200 sample_data)))))) = StatusActive
   \<and> network_calls (fst (snd (getEnterpriseLicense (world_of env_unlicensed (always (attempt_with (reply 200 sample_data))))))) = 0"
proof -
  let ?w = "world_of env_unlicensed (always (attempt_with (reply 200 sample_data)))"
  have a: "\<not> truthy (ENTERPRISE_LICENSE_KEY (environment ?w))"
    by (simp add: world_of_def env_unlicensed_def env_licensed_def truthy_def)
  have b: "memo_ok ?w"
    by (simp add: memo_ok_def world_of_def)
  show ?thesis
    using a b C1_no_key_reports_active [OF a b] by (auto split: prod.splits)
qed

text \<open>
  C2, as the specification states it: with the authority unreachable and the last active
  verification stored at \<open>T0\<close>, a call in \<open>[T0 + FETCH_TTL, T0 + PREVIOUS_TTL)\<close> returns
  \<open>fallbackLevel = cached\<close>. It fails at \<open>T0 = 0\<close> and \<open>t = FETCH_TTL\<close>: the level is
  \<open>live\<close>.
\<close>

theorem C2_fallback_counterexample:
  "unreachable (world_offline FETCH_LICENSE_TTL_MS)
   \<and> previous_entry (world_offline FETCH_LICENSE_TTL_MS) = Some (sample_details, 0)
   \<and> TEnterpriseLicenseDetails.status sample_details = Active
   \<and> 0 + FETCH_LICENSE_TTL_MS \<le> now (world_offline FETCH_LICENSE_TTL_MS)
   \<and> now (world_offline FETCH_LICENSE_TTL_MS) < 0 + PREVIOUS_RESULT_TTL_MS
   \<and> fallbackLevel (fst (getEnterpriseLicense (world_offline FETCH_LICENSE_TTL_MS))) \<noteq> Cached"
  by (simp add: unreachable_def world_offline_def world_of_def always_def attempt_with_def
      MAX_RETRIES_def list_all_iff sample_details_def FETCH_LICENSE_TTL_MS_def PREVIOUS_RESULT_TTL_MS_def
      getEnterpriseLicense_def reactCache_def getEnterpriseLicense_body_def)

text \<open>
  C2, amended: with the authority unreachable and the last active verification stored at
  \<open>T0\<close>, a call at any instant from \<open>T0 + FETCH_TTL\<close> on (in the cached window, in the
  grace window and after it alike) returns \<open>fallbackLevel = live\<close>, \<open>active = true\<close>,
  \<open>isPendingDowngrade = false\<close> and status \<open>active\<close>.
\<close>

theorem C2_offline_stays_live:
  assumes "unreachable w"
    and "previous_entry w = Some (d, T0)"
    and "TEnterpriseLicenseDetails.status d = Active"
    and "T0 + FETCH_LICENSE_TTL_MS \<le> now w"
    and "memo_ok w"
  shows "case getEnterpriseLicense w of
           (r, evs, w') \<Rightarrow>
             fallbackLevel r = Live \<and> active r \<and> \<not> isPendingDowngrade r
             \<and> status r = StatusActive"
proof -
  obtain t where "getEnterpriseLicense w =
      (fst (getEnterpriseLicense_body (w\<lparr>now := t\<rparr>)), [],
       w\<lparr>memo := Some (fst (getEnterpriseLicense_body (w\<lparr>now := t\<rparr>)))\<rparr>)"
    using getEnterpriseLicense_result [OF assms(5)] by blast
  then show ?thesis
    by (simp add: getEnterpriseLicense_body_def)
qed

text \<open>C2, amended, at the first instant of each of the three windows.\<close>

theorem C2_offline_stays_live_witness:
  "unreachable (world_offline (PREVIOUS_RESULT_TTL_MS + GRACE_PERIOD_MS))
   \<and> previous_entry (world_offline (PREVIOUS_RESULT_TTL_MS + GRACE_PERIOD_MS)) = Some (sample_details, 0)
   \<and> TEnterpriseLicenseDetails.status sample_details = Active
   \<and> 0 + FETCH_LICENSE_TTL_MS \<le> now (world_offline (PREVIOUS_RESULT_TTL_MS + GRACE_PERIOD_MS))
   \<and> memo_ok (world_offline (PREVIOUS_RESULT_TTL_MS + GRACE_PERIOD_MS))
   \<and> fallbackLevel (fst (getEnterpriseLicense (world_offline FETCH_LICENSE_TTL_MS))) = Live
   \<and> fallbackLevel (fst (getEnterpriseLicense (world_offline PREVIOUS_RESULT_TTL_MS))) = Live
   \<and> fallbackLevel (fst (getEnterpriseLicense (world_offline (PREVIOUS_RESULT_TTL_MS + GRACE_PERIOD_MS)))) = Live
   \<and> active (fst (getEnterpriseLicense (world_offline (PREVIOUS_RESULT_TTL_MS + GRACE_PERIOD_MS))))"
proof -
  have t1: "0 + FETCH_LICENSE_TTL_MS \<le> now (world_offline FETCH_LICENSE_TTL_MS)"
    by (simp add: world_offline_facts)
  have t2: "0 + FETCH_LICENSE_TTL_MS \<le> now (world_offline PREVIOUS_RESULT_TTL_MS)"
    by (simp add: world_offline_facts FETCH_LICENSE_TTL_MS_def PREVIOUS_RESULT_TTL_MS_def)
  have t3: "0 + FETCH_LICENSE_TTL_MS \<le> now (world_offline (PREVIOUS_RESULT_TTL_MS + GRACE_PERIOD_MS))"
    by (simp add: world_offline_facts FETCH_LICENSE_TTL_MS_def PREVIOUS_RESULT_TTL_MS_def
        GRACE_PERIOD_MS_def)
  note f = world_offline_facts(1-4)
  show ?thesis
    using t3 f
      C2_offline_stays_live [OF f(1) f(2) f(3) t1 f(4)]
      C2_offline_stays_live [OF f(1) f(2) f(3) t2 f(4)]
      C2_offline_stays_live [OF f(1) f(2) f(3) t3 f(4)]
    by (auto split: prod.splits)
qed

text \<open>
  C3: in every state (key configured or not, authority reachable or not, any cache
  contents) \<open>getEnterpriseLicense\<close> returns \<open>active = true\<close>, status \<open>active\<close>, level
  \<open>live\<close>, no pending downgrade and the feature set with every flag true and unbounded
  projects; \<open>getLicenseFeatures\<close> returns that same feature set, never \<open>null\<close>. Neither
  has any effect (no network call, no cache access; only the memo cell is filled), and
  two calls in any two states differ in \<open>lastChecked\<close> at most.
\<close>

theorem C3_always_active_all_features:
  assumes "memo_ok w" and "memo_ok w'"
  shows "(case getEnterpriseLicense w of
            (r, evs, w1) \<Rightarrow>
              active r \<and> status r = StatusActive \<and> fallbackLevel r = Live
              \<and> \<not> isPendingDowngrade r
              \<and> (\<exists>f. features r = Some f
                   \<and> isMultiOrgEnabled f \<and> projects f = Some Infinity \<and> twoFactorAuth f
                   \<and> sso f \<and> whitelabel f \<and> removeBranding f \<and> contacts f \<and> ai f
                   \<and> saml f \<and> spamProtection f \<and> auditLogs f \<and> multiLanguageSurveys f
                   \<and> accessControl f \<and> quotas f)
              \<and> getLicenseFeatures w = (features r, [])
              \<and> fst (getLicenseFeatures w) \<noteq> None
              \<and> evs = []
              \<and> w1 = w\<lparr>memo := Some r\<rparr>
              \<and> (fst (getEnterpriseLicense w'))\<lparr>lastChecked := lastChecked r\<rparr> = r
              \<and> getLicenseFeatures w' = getLicenseFeatures w)"
proof -
  obtain t where t: "getEnterpriseLicense w =
      (fst (getEnterpriseLicense_body (w\<lparr>now := t\<rparr>)), [],
       w\<lparr>memo := Some (fst (getEnterpriseLicense_body (w\<lparr>now := t\<rparr>)))\<rparr>)"
    using getEnterpriseLicense_result [OF assms(1)] by blast
  obtain t' where t': "getEnterpriseLicense w' =
      (fst (getEnterpriseLicense_body (w'\<lparr>now := t'\<rparr>)), [],
       w'\<lparr>memo := Some (fst (getEnterpriseLicense_body (w'\<lparr>now := t'\<rparr>)))\<rparr>)"
    using getEnterpriseLicense_result [OF assms(2)] by blast
  show ?thesis
    by (simp add: t t' getEnterpriseLicense_body_def getLicenseFeatures_def)
qed

text \<open>C3 at a deployment without a key and at one whose authority is down.\<close>

theorem C3_always_active_all_features_witness:
  "memo_ok (world_of env_unlicensed (always (attempt_with (Inl AbortError))))
   \<and> memo_ok (world_offline 5)
   \<and> active (fst (getEnterpriseLicense (world_of env_unlicensed (always (attempt_with (Inl AbortError))))))
   \<and> fst (snd (getEnterpriseLicense (world_of env_unlicensed (always (attempt_with (Inl AbortError)))))) = []
   \<and> getLicenseFeatures (world_offline 5)
       = getLicenseFeatures (world_of env_unlicensed (always (attempt_with (Inl AbortError))))"
proof -
  have a: "memo_ok (world_of env_unlicensed (always (attempt_with (Inl AbortError))))"
    by (simp add: memo_ok_def world_of_def)
  have b: "memo_ok (world_offline 5)"
    by (simp add: memo_ok_def world_offline_def world_of_def)
  show ?thesis
    using a b C3_always_active_all_features [OF a b]
    by (auto split: prod.splits)
qed

subsection \<open>Early exits of the fetch path\<close>

text \<open>
  C8: if no license key is configured, or the build phase flag is set, \<open>fetchLicense\<close>
  resolves to \<open>null\<close> at once, leaving the state as it is (no cache access, no producer
  started), and \<open>fetchLicenseFromServerInternal\<close> resolves to \<open>null\<close> with no effect at
  all: no instance or usage lookup, no request.
\<close>

theorem C8_no_key_or_build_returns_null:
  assumes "\<not> truthy (ENTERPRISE_LICENSE_KEY (environment w)) \<or> build_phase (environment w)"
  shows "fetchLicense w = (ResolvesNull, [], w)
         \<and> fetchLicenseFromServerInternal (environment w) (authority w) retryCount = (Inr None, [])"
  using assms
  by (auto simp: fetchLicense_def fetchLicenseFromServerInternal.simps [of _ _ retryCount])

text \<open>C8 at a deployment without a key and at one in its build phase.\<close>

theorem C8_no_key_or_build_returns_null_witness:
  "\<not> truthy (ENTERPRISE_LICENSE_KEY (environment (world_of env_unlicensed (always (attempt_with (reply 200 sample_data))))))
   \<and> build_phase (environment (world_of env_build (always (attempt_with (reply 200 sample_data)))))
   \<and> fst (fetchLicense (world_of env_unlicensed (always (attempt_with (reply 200 sample_data))))) = ResolvesNull
   \<and> fst (fetchLicense (world_of env_build (always (attempt_with (reply 200 sample_data))))) = ResolvesNull
   \<and> fetchLicenseFromServerInternal env_unlicensed (always (attempt_with (reply 200 sample_data))) 0 = (Inr None, [])
   \<and> fetchLicenseFromServerInternal env_build (always (attempt_with (reply 200 sample_data))) 0 = (Inr None, [])"
proof -
  let ?u = "world_of env_unlicensed (always (attempt_with (reply 200 sample_data)))"
  let ?b = "world_of env_build (always (attempt_with (reply 200 sample_data)))"
  have u: "\<not> truthy (ENTERPRISE_LICENSE_KEY (environment ?u))"
    by (simp add: world_of_def env_unlicensed_def env_licensed_def truthy_def)
  have b: "build_phase (environment ?b)"
    by (simp add: world_of_def env_build_def env_licensed_def build_phase_def)
  have eu: "environment ?u = env_unlicensed" "authority ?u = always (attempt_with (reply 200 sample_data))"
    by (simp_all add: world_of_def)
  have eb: "environment ?b = env_build" "authority ?b = always (attempt_with (reply 200 sample_data))"
    by (simp_all add: world_of_def)
  show ?thesis
    using u b
      C8_no_key_or_build_returns_null [OF disjI1 [OF u], of 0]
      C8_no_key_or_build_returns_null [OF disjI2 [OF b], of 0]
    by (simp add: eu eb)
qed

subsection \<open>One invocation of \<open>fetchLicenseFromServerInternal\<close>\<close>

lemma network_calls_append: "network_calls (xs @ ys) = network_calls xs + network_calls ys"
  by (simp add: network_calls_def)

lemma sleeps_append: "sleeps (xs @ ys) = sleeps xs @ sleeps ys"
  by (simp add: sleeps_def)

lemma timeline_append: "timeline (xs @ ys) = timeline xs @ timeline ys"
  by (simp add: timeline_def)

lemma retryable_not_ok: "retryable (code res) \<Longrightarrow> \<not> ok res"
  by (auto simp: retryable_def ok_def)

lemma gather_events:
  "gather e a = (r, evs) \<Longrightarrow> network_calls evs = 0 \<and> sleeps evs = [] \<and> timeline evs = []"
  by (auto simp: gather_def Let_def network_calls_def sleeps_def timeline_def is_network_def
      split: sum.splits if_splits)

text \<open>The effects of one invocation that gets a response, up to and including the request.\<close>

lemma tryBlock_not_ok:
  assumes "responds e a res" and "\<not> ok res"
  shows "\<exists>evs. network_calls evs = 1 \<and> sleeps evs = [] \<and> timeline evs = [Request]
           \<and> tryBlock e a retryCount =
               (if retryCount < MAX_RETRIES \<and> retryable (code res)
                then (Retry, evs @ [Sleep (RETRY_DELAY_MS * 2 ^ retryCount)])
                else (Returned None, evs))"
proof -
  obtain i n evs0 where g: "gather e a = (Inr (i, n), evs0)" and u: "E2E_TESTING e \<or> truthy i"
    and f: "fetch_result a = Inr res"
    using assms(1) by (auto simp: responds_def split: prod.splits sum.splits)
  from gather_events [OF g] have z: "network_calls evs0 = 0" "sleeps evs0 = []" "timeline evs0 = []"
    by simp_all
  let ?evs = "evs0 @ (if gather_duration a > 1000 then [LogWarn (gather_duration a) n] else [])
      @ [HttpPost (build_request e i n)]
      @ trackApiError (LicenseApiError
           (''License check API responded with status: '' @ digits (code res)) (code res))"
  have "network_calls ?evs = 1" "sleeps ?evs = []" "timeline ?evs = [Request]"
    using z by (simp_all add: network_calls_def sleeps_def timeline_def is_network_def trackApiError_def)
  moreover have "tryBlock e a retryCount =
               (if retryCount < MAX_RETRIES \<and> retryable (code res)
                then (Retry, ?evs @ [Sleep (RETRY_DELAY_MS * 2 ^ retryCount)])
                else (Returned None, ?evs))"
    using g u f assms(2) by (auto simp: tryBlock_def Let_def)
  ultimately show ?thesis by blast
qed

lemma tryBlock_ok:
  assumes "responds e a res" and "ok res"
  shows "\<exists>evs i n. network_calls evs = 1 \<and> sleeps evs = []
           \<and> tryBlock e a retryCount =
               (case json res of
                  Inl x \<Rightarrow> (Thrown (External x), evs)
                | Inr responseJson \<Rightarrow>
                    (case data_of responseJson of
                       Inl x \<Rightarrow> (Thrown (External x), evs)
                     | Inr d \<Rightarrow>
                         (case validateLicenseDetails d of
                            Inl z \<Rightarrow> (Thrown z, evs)
                          | Inr licenseDetails \<Rightarrow>
                              (Returned (Some licenseDetails),
                               evs @ [LogDebug (TEnterpriseLicenseDetails.status licenseDetails) i n]))))"
proof -
  obtain i n evs0 where g: "gather e a = (Inr (i, n), evs0)" and u: "E2E_TESTING e \<or> truthy i"
    and f: "fetch_result a = Inr res"
    using assms(1) by (auto simp: responds_def split: prod.splits sum.splits)
  from gather_events [OF g] have z: "network_calls evs0 = 0" "sleeps evs0 = []" "timeline evs0 = []"
    by simp_all
  let ?evs = "evs0 @ (if gather_duration a > 1000 then [LogWarn (gather_duration a) n] else [])
      @ [HttpPost (build_request e i n)]"
  have "network_calls ?evs = 1" "sleeps ?evs = []"
    using z by (simp_all add: network_calls_def sleeps_def is_network_def)
  moreover have "tryBlock e a retryCount =
               (case json res of
                  Inl x \<Rightarrow> (Thrown (External x), ?evs)
                | Inr responseJson \<Rightarrow>
                    (case data_of responseJson of
                       Inl x \<Rightarrow> (Thrown (External x), ?evs)
                     | Inr d \<Rightarrow>
                         (case validateLicenseDetails d of
                            Inl z \<Rightarrow> (Thrown z, ?evs)
                          | Inr licenseDetails \<Rightarrow>
                              (Returned (Some licenseDetails),
                               ?evs @ [LogDebug (TEnterpriseLicenseDetails.status licenseDetails)
                                  (case i of None \<Rightarrow> ''not-set'' | Some s \<Rightarrow> s) n]))))"
    using g u f assms(2) by (auto simp: tryBlock_def Let_def split: sum.splits)
  ultimately show ?thesis by blast
qed

lemma validateLicenseDetails_error: "validateLicenseDetails d = Inl z \<Longrightarrow> z = ZodError"
  by (auto simp: validateLicenseDetails_def split: option.splits)

lemma tryBlock_no_api_error: "fst (tryBlock e a retryCount) \<noteq> Thrown (LicenseApiError m st)"
  by (auto simp: tryBlock_def Let_def split: prod.splits sum.splits dest: validateLicenseDetails_error)


lemma fetch_retry:
  assumes "truthy (ENTERPRISE_LICENSE_KEY e)" and "\<not> build_phase e"
    and "responds e (w retryCount) res" and "retryable (code res)"
    and "retryCount < MAX_RETRIES"
  shows "fst (fetchLicenseFromServerInternal e w retryCount)
           = fst (fetchLicenseFromServerInternal e w (retryCount + 1))"
    and "sleeps (snd (fetchLicenseFromServerInternal e w retryCount))
           = (RETRY_DELAY_MS * 2 ^ retryCount)
               # sleeps (snd (fetchLicenseFromServerInternal e w (retryCount + 1)))"
    and "network_calls (snd (fetchLicenseFromServerInternal e w retryCount))
           = Suc (network_calls (snd (fetchLicenseFromServerInternal e w (retryCount + 1))))"
    and "timeline (snd (fetchLicenseFromServerInternal e w retryCount))
           = Request # Wait (RETRY_DELAY_MS * 2 ^ retryCount)
               # timeline (snd (fetchLicenseFromServerInternal e w (retryCount + 1)))"
proof -
  obtain evs where evs: "network_calls evs = 1" "sleeps evs = []" "timeline evs = [Request]"
    and t: "tryBlock e (w retryCount) retryCount
              = (Retry, evs @ [Sleep (RETRY_DELAY_MS * 2 ^ retryCount)])"
    using tryBlock_not_ok [OF assms(3) retryable_not_ok [OF assms(4)], of retryCount]
      assms(4,5) by auto
  have unfold: "fetchLicenseFromServerInternal e w retryCount =
      (fst (fetchLicenseFromServerInternal e w (retryCount + 1)),
       (evs @ [Sleep (RETRY_DELAY_MS * 2 ^ retryCount)])
         @ snd (fetchLicenseFromServerInternal e w (retryCount + 1)))"
    using assms(1,2) t
    by (simp add: fetchLicenseFromServerInternal.simps [of e w retryCount] split: prod.splits)
  show "fst (fetchLicenseFromServerInternal e w retryCount)
           = fst (fetchLicenseFromServerInternal e w (retryCount + 1))"
    by (simp add: unfold)
  show "sleeps (snd (fetchLicenseFromServerInternal e w retryCount))
           = (RETRY_DELAY_MS * 2 ^ retryCount)
               # sleeps (snd (fetchLicenseFromServerInternal e w (retryCount + 1)))"
    by (simp add: unfold sleeps_append evs) (simp add: sleeps_def)
  show "network_calls (snd (fetchLicenseFromServerInternal e w retryCount))
           = Suc (network_calls (snd (fetchLicenseFromServerInternal e w (retryCount + 1))))"
    by (simp add: unfold network_calls_append evs) (simp add: network_calls_def is_network_def)
  show "timeline (snd (fetchLicenseFromServerInternal e w retryCount))
           = Request # Wait (RETRY_DELAY_MS * 2 ^ retryCount)
               # timeline (snd (fetchLicenseFromServerInternal e w (retryCount + 1)))"
    by (simp add: unfold timeline_append evs) (simp add: timeline_def)
qed

lemma fetch_gives_up:
  assumes "truthy (ENTERPRISE_LICENSE_KEY e)" and "\<not> build_phase e"
    and "responds e (w retryCount) res" and "\<not> ok res"
    and "\<not> retryCount < MAX_RETRIES \<or> \<not> retryable (code res)"
  shows "fst (fetchLicenseFromServerInternal e w retryCount) = Inr None"
    and "sleeps (snd (fetchLicenseFromServerInternal e w retryCount)) = []"
    and "network_calls (snd (fetchLicenseFromServerInternal e w retryCount)) = 1"
    and "timeline (snd (fetchLicenseFromServerInternal e w retryCount)) = [Request]"
proof -
  obtain evs where evs: "network_calls evs = 1" "sleeps evs = []" "timeline evs = [Request]"
    and t: "tryBlock e (w retryCount) retryCount = (Returned None, evs)"
    using tryBlock_not_ok [OF assms(3,4), of retryCount] assms(5) by auto
  have unfold: "fetchLicenseFromServerInternal e w retryCount = (Inr None, evs)"
    using assms(1,2) t
    by (simp add: fetchLicenseFromServerInternal.simps [of e w retryCount])
  show "fst (fetchLicenseFromServerInternal e w retryCount) = Inr None"
    and "sleeps (snd (fetchLicenseFromServerInternal e w retryCount)) = []"
    and "network_calls (snd (fetchLicenseFromServerInternal e w retryCount)) = 1"
    and "timeline (snd (fetchLicenseFromServerInternal e w retryCount)) = [Request]"
    by (simp_all add: unfold evs)
qed

lemma fetch_success_response:
  assumes "truthy (ENTERPRISE_LICENSE_KEY e)" and "\<not> build_phase e"
    and "responds e (w retryCount) res" and "ok res"
  shows "sleeps (snd (fetchLicenseFromServerInternal e w retryCount)) = []"
    and "network_calls (snd (fetchLicenseFromServerInternal e w retryCount)) = 1"
proof -
  obtain evs i n where evs: "network_calls evs = 1" "sleeps evs = []"
    and t: "tryBlock e (w retryCount) retryCount =
               (case json res of
                  Inl x \<Rightarrow> (Thrown (External x), evs)
                | Inr responseJson \<Rightarrow>
                    (case data_of responseJson of
                       Inl x \<Rightarrow> (Thrown (External x), evs)
                     | Inr d \<Rightarrow>
                         (case validateLicenseDetails d of
                            Inl z \<Rightarrow> (Thrown z, evs)
                          | Inr licenseDetails \<Rightarrow>
                              (Returned (Some licenseDetails),
                               evs @ [LogDebug (TEnterpriseLicenseDetails.status licenseDetails) i n]))))"
    using tryBlock_ok [OF assms(3,4), of retryCount] by blast
  have "sleeps (snd (fetchLicenseFromServerInternal e w retryCount)) = []
      \<and> network_calls (snd (fetchLicenseFromServerInternal e w retryCount)) = 1"
    using assms(1,2) evs
    by (auto simp: fetchLicenseFromServerInternal.simps [of e w retryCount] t
        sleeps_append network_calls_append sleeps_def network_calls_def is_network_def
        split: sum.splits exn.splits dest: validateLicenseDetails_error)
  then show "sleeps (snd (fetchLicenseFromServerInternal e w retryCount)) = []"
    and "network_calls (snd (fetchLicenseFromServerInternal e w retryCount)) = 1"
    by simp_all
qed

lemma always_facts:
  "fetch_result (always (attempt_with r) n) = r"
  "responds env_licensed (always (attempt_with (reply c body)) n) (response_with c body)"
  "truthy (ENTERPRISE_LICENSE_KEY env_licensed)"
  "\<not> build_phase env_licensed"
  by (simp_all add: always_def attempt_with_def responds_def gather_def env_licensed_def
      reply_def truthy_def build_phase_def)

lemma no_success_always:
  "no_success (always (attempt_with (Inl x))) 0"
  "\<not> ok (response_with 503 body) \<Longrightarrow> no_success (always (attempt_with (reply 503 body))) 0"
  by (simp_all add: no_success_def list_all_iff always_def attempt_with_def reply_def)

subsection \<open>Retry policy\<close>

text \<open>
  C7: an invocation that receives a response whose status is outside
  \<open>{429, 502, 503, 504}\<close> makes no retry: there is exactly one request and no sleep,
  and when the status is not a 2xx one (400, for example) the result is \<open>null\<close>. With
  \<open>retryCount = 0\<close> the invocation is the fetch operation itself.
\<close>

theorem C7_terminal_status_not_retried:
  assumes "truthy (ENTERPRISE_LICENSE_KEY e)" and "\<not> build_phase e"
    and "responds e (w retryCount) res" and "\<not> retryable (code res)"
  shows "network_calls (snd (fetchLicenseFromServerInternal e w retryCount)) = 1
         \<and> sleeps (snd (fetchLicenseFromServerInternal e w retryCount)) = []
         \<and> (\<not> ok res \<longrightarrow> fst (fetchLicenseFromServerInternal e w retryCount) = Inr None)"
proof (cases "ok res")
  case True
  then show ?thesis
    using fetch_success_response [of e w retryCount res] assms by simp
next
  case False
  then show ?thesis
    using fetch_gives_up [of e w retryCount res] assms by simp
qed

text \<open>C7 at a deployment whose authority answers 400.\<close>

theorem C7_terminal_status_not_retried_witness:
  "truthy (ENTERPRISE_LICENSE_KEY env_licensed)
   \<and> \<not> build_phase env_licensed
   \<and> responds env_licensed (always (attempt_with (reply 400 JNull)) 0) (response_with 400 JNull)
   \<and> \<not> retryable (code (response_with 400 JNull))
   \<and> \<not> ok (response_with 400 JNull)
   \<and> network_calls (snd (fetchLicenseFromServerInternal env_licensed
                (always (attempt_with (reply 400 JNull))) 0)) = 1
   \<and> sleeps (snd (fetchLicenseFromServerInternal env_licensed
                (always (attempt_with (reply 400 JNull))) 0)) = []
   \<and> fst (fetchLicenseFromServerInternal env_licensed (always (attempt_with (reply 400 JNull))) 0)
       = Inr None"
proof -
  have r: "\<not> retryable (code (response_with 400 JNull))" "\<not> ok (response_with 400 JNull)"
    by (simp_all add: retryable_def response_with_def ok_def)
  show ?thesis
    using always_facts(2-4) r
      C7_terminal_status_not_retried [of env_licensed "always (attempt_with (reply 400 JNull))" 0
        "response_with 400 JNull"]
    by simp
qed

text \<open>
  C6: when every invocation receives a retryable status, the fetch operation makes
  \<open>MAX_RETRIES = 3\<close> retries, four requests in all, sleeps 1000 ms before the first
  retry, 2000 ms before the second and 4000 ms before the third, and then resolves to
  \<open>null\<close> instead of throwing.
\<close>

theorem C6_retries_with_backoff:
  assumes "truthy (ENTERPRISE_LICENSE_KEY e)" and "\<not> build_phase e"
    and "\<forall>n \<le> MAX_RETRIES. \<exists>res. responds e (w n) res \<and> retryable (code res)"
  shows "fst (fetchLicenseFromServerInternal e w 0) = Inr None
         \<and> sleeps (snd (fetchLicenseFromServerInternal e w 0)) = [1000, 2000, 4000]
         \<and> network_calls (snd (fetchLicenseFromServerInternal e w 0)) = MAX_RETRIES + 1
         \<and> MAX_RETRIES = 3
         \<and> timeline (snd (fetchLicenseFromServerInternal e w 0))
             = [Request, Wait 1000, Request, Wait 2000, Request, Wait 4000, Request]"
proof -
  have every: "\<And>n. n \<le> 3 \<Longrightarrow> \<exists>res. responds e (w n) res \<and> retryable (code res)"
    using assms(3) by (simp add: MAX_RETRIES_def)
  obtain r0 where r0: "responds e (w 0) r0" "retryable (code r0)"
    using every [of 0] by auto
  obtain r1 where r1: "responds e (w 1) r1" "retryable (code r1)"
    using every [of 1] by auto
  obtain r2 where r2: "responds e (w 2) r2" "retryable (code r2)"
    using every [of 2] by auto
  obtain r3 where r3: "responds e (w 3) r3" "retryable (code r3)"
    using every [of 3] by auto
  have next_count: "(0::nat) + 1 = 1" "(1::nat) + 1 = 2" "(2::nat) + 1 = 3"
    by simp_all
  have s3: "fst (fetchLicenseFromServerInternal e w 3) = Inr None"
    "sleeps (snd (fetchLicenseFromServerInternal e w 3)) = []"
    "network_calls (snd (fetchLicenseFromServerInternal e w 3)) = 1"
    "timeline (snd (fetchLicenseFromServerInternal e w 3)) = [Request]"
    using fetch_gives_up [of e w 3 r3] assms(1,2) r3 retryable_not_ok [OF r3(2)]
    by (simp_all add: MAX_RETRIES_def)
  have s2: "fst (fetchLicenseFromServerInternal e w 2) = Inr None"
    "sleeps (snd (fetchLicenseFromServerInternal e w 2)) = [4000]"
    "network_calls (snd (fetchLicenseFromServerInternal e w 2)) = 2"
    "timeline (snd (fetchLicenseFromServerInternal e w 2)) = [Request, Wait 4000, Request]"
    using fetch_retry [of e w 2 r2, unfolded next_count] assms(1,2) r2 s3
    by (simp_all add: MAX_RETRIES_def RETRY_DELAY_MS_def)
  have s1: "fst (fetchLicenseFromServerInternal e w 1) = Inr None"
    "sleeps (snd (fetchLicenseFromServerInternal e w 1)) = [2000, 4000]"
    "network_calls (snd (fetchLicenseFromServerInternal e w 1)) = 3"
    "timeline (snd (fetchLicenseFromServerInternal e w 1))
       = [Request, Wait 2000, Request, Wait 4000, Request]"
    using fetch_retry [of e w 1 r1, unfolded next_count] assms(1,2) r1 s2
    by (simp_all add: MAX_RETRIES_def RETRY_DELAY_MS_def)
  have s0: "fst (fetchLicenseFromServerInternal e w 0) = Inr None"
    "sleeps (snd (fetchLicenseFromServerInternal e w 0)) = [1000, 2000, 4000]"
    "network_calls (snd (fetchLicenseFromServerInternal e w 0)) = 4"
    "timeline (snd (fetchLicenseFromServerInternal e w 0))
       = [Request, Wait 1000, Request, Wait 2000, Request, Wait 4000, Request]"
    using fetch_retry [of e w 0 r0, unfolded next_count] assms(1,2) r0 s1
    by (simp_all add: MAX_RETRIES_def RETRY_DELAY_MS_def)
  show ?thesis
    by (simp add: s0 MAX_RETRIES_def)
qed

text \<open>C6 at a deployment whose authority always answers 503.\<close>

theorem C6_retries_with_backoff_witness:
  "truthy (ENTERPRISE_LICENSE_KEY env_licensed)
   \<and> \<not> build_phase env_licensed
   \<and> responds env_licensed (always (attempt_with (reply 503 JNull)) 3) (response_with 503 JNull)
   \<and> retryable (code (response_with 503 JNull))
   \<and> fst (fetchLicenseFromServerInternal env_licensed (always (attempt_with (reply 503 JNull))) 0)
       = Inr None
   \<and> sleeps (snd (fetchLicenseFromServerInternal env_licensed
                (always (attempt_with (reply 503 JNull))) 0)) = [1000, 2000, 4000]
   \<and> network_calls (snd (fetchLicenseFromServerInternal env_licensed
                (always (attempt_with (reply 503 JNull))) 0)) = 4
   \<and> timeline (snd (fetchLicenseFromServerInternal env_licensed
                (always (attempt_with (reply 503 JNull))) 0))
       = [Request, Wait 1000, Request, Wait 2000, Request, Wait 4000, Request]"
proof -
  have r: "retryable (code (response_with 503 JNull))"
    by (simp add: retryable_def response_with_def)
  have every: "\<forall>n \<le> MAX_RETRIES. \<exists>res.
      responds env_licensed (always (attempt_with (reply 503 JNull)) n) res \<and> retryable (code res)"
    using always_facts(2) r by blast
  show ?thesis
    using always_facts(2-4) r
      C6_retries_with_backoff [OF always_facts(3,4) every]
    by simp
qed

subsection \<open>Failures never reach the caller\<close>

lemma fetch_never_rejects: "\<exists>v. fst (fetchLicenseFromServerInternal e w retryCount) = Inr v"
proof (induction e w retryCount rule: fetchLicenseFromServerInternal.induct)
  case (1 e w retryCount)
  obtain s evs where t: "tryBlock e (w retryCount) retryCount = (s, evs)"
    by (cases "tryBlock e (w retryCount) retryCount")
  show ?case
  proof (cases "\<not> truthy (ENTERPRISE_LICENSE_KEY e) \<or> build_phase e")
    case True
    then show ?thesis
      by (auto simp: fetchLicenseFromServerInternal.simps [of e w retryCount])
  next
    case False
    then have k: "truthy (ENTERPRISE_LICENSE_KEY e)" "\<not> build_phase e" by simp_all
    show ?thesis
    proof (cases s)
      case (Returned v)
      with t k show ?thesis
        by (simp add: fetchLicenseFromServerInternal.simps [of e w retryCount])
    next
      case (Thrown x)
      show ?thesis
      proof (cases x)
        case (LicenseApiError m st)
        with t Thrown tryBlock_no_api_error [of e "w retryCount" retryCount m st]
        show ?thesis by simp
      next
        case ZodError
        with t k Thrown show ?thesis
          by (simp add: fetchLicenseFromServerInternal.simps [of e w retryCount])
      next
        case (External y)
        with t k Thrown show ?thesis
          by (simp add: fetchLicenseFromServerInternal.simps [of e w retryCount])
      qed
    next
      case Retry
      with "1.IH" [of Retry evs] t k
      obtain v where "fst (fetchLicenseFromServerInternal e w (retryCount + 1)) = Inr v"
        by auto
      with t k Retry show ?thesis
        by (auto simp: fetchLicenseFromServerInternal.simps [of e w retryCount] split: prod.splits)
    qed
  qed
qed

lemma fetch_network_failure:
  "fetch_result (w retryCount) = Inl x \<Longrightarrow>
   fst (fetchLicenseFromServerInternal e w retryCount) = Inr None"
  by (auto simp: fetchLicenseFromServerInternal.simps [of e w retryCount] tryBlock_def Let_def
      split: prod.splits sum.splits step.splits exn.splits)

lemma tryBlock_no_success:
  assumes "case fetch_result a of Inl x \<Rightarrow> True | Inr res \<Rightarrow> \<not> ok res"
  shows "fst (tryBlock e a retryCount) = Returned None
         \<or> fst (tryBlock e a retryCount) = Retry
         \<or> (\<exists>x. fst (tryBlock e a retryCount) = Thrown (External x))"
  using assms
  by (auto simp: tryBlock_def Let_def split: prod.splits sum.splits)

lemma no_success_step:
  assumes "no_success w retryCount" and "retryCount < MAX_RETRIES"
  shows "no_success w (retryCount + 1)"
    and "case fetch_result (w retryCount) of Inl x \<Rightarrow> True | Inr res \<Rightarrow> \<not> ok res"
  using assms by (simp_all add: no_success_def upt_conv_Cons)

lemma no_success_here:
  assumes "no_success w retryCount" and "retryCount \<le> MAX_RETRIES"
  shows "case fetch_result (w retryCount) of Inl x \<Rightarrow> True | Inr res \<Rightarrow> \<not> ok res"
  using assms by (auto simp: no_success_def list_all_iff)

lemma fetch_no_success:
  "no_success w retryCount \<Longrightarrow> retryCount \<le> MAX_RETRIES \<Longrightarrow>
   fst (fetchLicenseFromServerInternal e w retryCount) = Inr None"
proof (induction e w retryCount rule: fetchLicenseFromServerInternal.induct)
  case (1 e w retryCount)
  obtain s evs where t: "tryBlock e (w retryCount) retryCount = (s, evs)"
    by (cases "tryBlock e (w retryCount) retryCount")
  show ?case
  proof (cases "\<not> truthy (ENTERPRISE_LICENSE_KEY e) \<or> build_phase e")
    case True
    then show ?thesis
      by (auto simp: fetchLicenseFromServerInternal.simps [of e w retryCount])
  next
    case False
    then have k: "truthy (ENTERPRISE_LICENSE_KEY e)" "\<not> build_phase e" by simp_all
    from tryBlock_no_success [OF no_success_here [OF "1.prems"], of e retryCount] t
    consider "s = Returned None" | "s = Retry" | x where "s = Thrown (External x)"
      by auto
    then show ?thesis
    proof cases
      case 1
      with t k show ?thesis
        by (simp add: fetchLicenseFromServerInternal.simps [of e w retryCount])
    next
      case 2
      with t have lt: "retryCount < MAX_RETRIES"
        by (auto dest: tryBlock_Retry_bound)
      have "fst (fetchLicenseFromServerInternal e w (retryCount + 1)) = Inr None"
        using "1.IH" [of Retry evs] t k 2 no_success_step(1) [OF "1.prems"(1) lt] lt
        by simp
      with t k 2 show ?thesis
        by (auto simp: fetchLicenseFromServerInternal.simps [of e w retryCount] split: prod.splits)
    next
      case 3
      with t k show ?thesis
        by (simp add: fetchLicenseFromServerInternal.simps [of e w retryCount])
    qed
  qed
qed

text \<open>
  C9: \<open>fetchLicenseFromServerInternal\<close> never rejects. The guarded block never throws a
  \<open>LicenseApiError\<close> (the object is built and logged only), so the rethrowing branch of
  the \<open>catch\<close> clause is unreachable. An invocation whose \<open>fetch\<close> fails (timeout,
  network-level exception) resolves to \<open>null\<close>, and so does a check none of whose
  invocations gets a 2xx response.
\<close>

theorem C9_fetch_never_throws:
  "(\<exists>v. fst (fetchLicenseFromServerInternal e w retryCount) = Inr v)
   \<and> fst (tryBlock e a retryCount) \<noteq> Thrown (LicenseApiError m st)
   \<and> (fetch_result (w retryCount) = Inl x \<longrightarrow>
        fst (fetchLicenseFromServerInternal e w retryCount) = Inr None)
   \<and> (no_success w retryCount \<and> retryCount \<le> MAX_RETRIES \<longrightarrow>
        fst (fetchLicenseFromServerInternal e w retryCount) = Inr None)"
  using fetch_never_rejects [of e w retryCount] tryBlock_no_api_error [of e a retryCount m st]
    fetch_network_failure [of w retryCount x e] fetch_no_success [of w retryCount e]
  by blast

text \<open>C9 at an authority that times out and at one that always answers 503.\<close>

theorem C9_fetch_never_throws_witness:
  "fetch_result (always (attempt_with (Inl AbortError)) 0) = Inl AbortError
   \<and> no_success (always (attempt_with (Inl AbortError))) 0
   \<and> fst (fetchLicenseFromServerInternal env_licensed (always (attempt_with (Inl AbortError))) 0)
       = Inr None
   \<and> no_success (always (attempt_with (reply 503 JNull))) 0
   \<and> fst (fetchLicenseFromServerInternal env_licensed (always (attempt_with (reply 503 JNull))) 0)
       = Inr None"
proof -
  have c: "no_success (always (attempt_with (reply 503 JNull))) 0"
    by (rule no_success_always) (simp add: ok_def response_with_def)
  have a: "fetch_result (always (attempt_with (Inl AbortError)) 0) = Inl AbortError"
    by (simp add: always_facts)
  have b: "no_success (always (attempt_with (Inl AbortError))) 0"
    by (simp add: no_success_always)
  show ?thesis
    using a b c
      C9_fetch_never_throws [of env_licensed "always (attempt_with (Inl AbortError))" 0
        "attempt_with (Inl AbortError)" "[]" 0 AbortError]
      C9_fetch_never_throws [of env_licensed "always (attempt_with (reply 503 JNull))" 0
        "attempt_with (reply 503 JNull)" "[]" 0 AbortError]
    by (simp add: MAX_RETRIES_def)
qed

text \<open>
  C4, as the specification states it: a 2xx response whose body fails schema validation
  makes the fetch operation reject with the schema error. It fails for a body whose
  status is \<open>revoked\<close>: the operation resolves to \<open>null\<close>.
\<close>

theorem C4_schema_error_counterexample:
  "truthy (ENTERPRISE_LICENSE_KEY env_licensed)
   \<and> \<not> build_phase env_licensed
   \<and> responds env_licensed (always (attempt_with (reply 200 revoked_data)) 0)
       (response_with 200 revoked_data)
   \<and> ok (response_with 200 revoked_data)
   \<and> json (response_with 200 revoked_data) = Inr (JObj [(''data'', revoked_data)])
   \<and> data_of (JObj [(''data'', revoked_data)]) = Inr revoked_data
   \<and> validateLicenseDetails revoked_data = Inl ZodError
   \<and> fst (fetchLicenseFromServerInternal env_licensed
            (always (attempt_with (reply 200 revoked_data))) 0) = Inr None"
  by code_simp

text \<open>
  C4, amended: when the authority responds with HTTP 2xx but the parsed body fails schema
  validation, the \<open>catch\<close> clause takes the schema error, logs it and the fetch
  operation resolves to \<open>null\<close>; the error does not reach the caller.
\<close>

theorem C4_schema_error_becomes_null:
  assumes "truthy (ENTERPRISE_LICENSE_KEY e)" and "\<not> build_phase e"
    and "responds e (w retryCount) res" and "ok res"
    and "json res = Inr responseJson" and "data_of responseJson = Inr d"
    and "validateLicenseDetails d = Inl z"
  shows "fst (fetchLicenseFromServerInternal e w retryCount) = Inr None
         \<and> last (snd (fetchLicenseFromServerInternal e w retryCount)) = LogError ZodError
         \<and> z = ZodError"
proof -
  have z: "z = ZodError"
    using assms(7) by (rule validateLicenseDetails_error)
  obtain evs i n where
    "tryBlock e (w retryCount) retryCount = (Thrown z, evs)"
    using tryBlock_ok [of e "w retryCount" res retryCount] assms(3-7) by auto
  then have "fetchLicenseFromServerInternal e w retryCount = (Inr None, evs @ [LogError ZodError])"
    using assms(1,2) z
    by (simp add: fetchLicenseFromServerInternal.simps [of e w retryCount])
  then show ?thesis
    using z by simp
qed

text \<open>C4, amended, at a 200 response whose status field is \<open>revoked\<close>.\<close>

theorem C4_schema_error_becomes_null_witness:
  "truthy (ENTERPRISE_LICENSE_KEY env_licensed)
   \<and> \<not> build_phase env_licensed
   \<and> responds env_licensed (always (attempt_with (reply 200 revoked_data)) 0)
       (response_with 200 revoked_data)
   \<and> ok (response_with 200 revoked_data)
   \<and> json (response_with 200 revoked_data) = Inr (JObj [(''data'', revoked_data)])
   \<and> data_of (JObj [(''data'', revoked_data)]) = Inr revoked_data
   \<and> validateLicenseDetails revoked_data = Inl ZodError
   \<and> last (snd (fetchLicenseFromServerInternal env_licensed
            (always (attempt_with (reply 200 revoked_data))) 0)) = LogError ZodError"
proof -
  have h: "ok (response_with 200 revoked_data)"
    "json (response_with 200 revoked_data) = Inr (JObj [(''data'', revoked_data)])"
    "data_of (JObj [(''data'', revoked_data)]) = Inr revoked_data"
    by (simp_all add: ok_def response_with_def data_of_def field_def)
  have v: "validateLicenseDetails revoked_data = Inl ZodError"
    by (simp add: validateLicenseDetails_def LicenseDetailsSchema_def revoked_data_def
        field_def z_enum_status_def)
  show ?thesis
    using always_facts(2-4) h v
      C4_schema_error_becomes_null [of env_licensed "always (attempt_with (reply 200 revoked_data))" 0
        "response_with 200 revoked_data" "JObj [(''data'', revoked_data)]" revoked_data ZodError]
    by simp
qed

subsection \<open>Validation\<close>










subsection \<open>Single flight\<close>

lemma run_append:
  "run (xs @ ys) w =
     (case run xs w of
        (rs, evs, w') \<Rightarrow>
          (case run ys w' of (rs', evs', w'') \<Rightarrow> (rs @ rs', evs @ evs', w'')))"
proof (induction xs arbitrary: w)
  case Nil
  then show ?case by (simp split: prod.splits)
next
  case (Cons x xs)
  then show ?case by (cases x) (simp_all split: prod.splits)
qed

lemma fetchLicense_joins:
  assumes "truthy (ENTERPRISE_LICENSE_KEY (environment w))"
    and "\<not> build_phase (environment w)"
    and "fetchLicensePromise w = Some p"
  shows "fetchLicense w = (Follows p, [], w)"
  using assms by (simp add: fetchLicense_def)

lemma fetchLicense_starts:
  assumes "truthy (ENTERPRISE_LICENSE_KEY (environment w))"
    and "\<not> build_phase (environment w)"
    and "fetchLicensePromise w = None"
  shows "fetchLicense w =
           (Follows (promises w), [WithCache FETCH_LICENSE_TTL_MS],
            w\<lparr>fetchLicensePromise := Some (promises w), promises := Suc (promises w)\<rparr>)"
  using assms by (simp add: fetchLicense_def Let_def)

lemma run_joins:
  assumes "truthy (ENTERPRISE_LICENSE_KEY (environment w))"
    and "\<not> build_phase (environment w)"
    and "fetchLicensePromise w = Some p"
  shows "run (replicate n Call) w = (replicate n (Follows p), [], w)"
  using assms by (induction n) (simp_all add: fetchLicense_joins)

lemma run_calls:
  assumes "truthy (ENTERPRISE_LICENSE_KEY (environment w))"
    and "\<not> build_phase (environment w)"
    and "fetchLicensePromise w = None"
    and "1 \<le> N"
  shows "run (replicate N Call) w =
           (replicate N (Follows (promises w)), [WithCache FETCH_LICENSE_TTL_MS],
            w\<lparr>fetchLicensePromise := Some (promises w), promises := Suc (promises w)\<rparr>)"
proof -
  obtain n where n: "N = Suc n"
    using assms(4) by (cases N) simp_all
  let ?w = "w\<lparr>fetchLicensePromise := Some (promises w), promises := Suc (promises w)\<rparr>"
  have "run (replicate n Call) ?w = (replicate n (Follows (promises w)), [], ?w)"
    using assms(1,2) by (intro run_joins) simp_all
  then show ?thesis
    using fetchLicense_starts [OF assms(1-3)] by (simp add: n)
qed

lemma resolve_many_quiet:
  "memo_ok w \<Longrightarrow> fst (snd (resolve_many n w)) = []"
proof (induction n arbitrary: w)
  case 0
  then show ?case by simp
next
  case (Suc n)
  obtain r evs w' where g: "getEnterpriseLicense w = (r, evs, w')"
    by (cases "getEnterpriseLicense w")
  have "evs = []"
    using g by (auto simp: getEnterpriseLicense_def reactCache_def getEnterpriseLicense_body_def
        split: option.splits)
  moreover have "memo_ok w'"
    using Suc.prems g
    by (auto simp: memo_ok_def getEnterpriseLicense_def reactCache_def
      getEnterpriseLicense_body_def split: option.splits)
  ultimately show ?case
    using Suc.IH [of w'] g by (auto split: prod.splits)
qed

text \<open>
  C5, as the specification states it: \<open>N\<close> concurrent calls of the resolution entry point
  with an empty cache cause exactly one network call. It fails at \<open>N = 1\<close> for a
  licensed deployment with an empty cache: there is no network call at all.
\<close>

theorem C5_single_flight_counterexample:
  "truthy (ENTERPRISE_LICENSE_KEY (environment (world_of env_licensed (always (attempt_with (reply 200 sample_data))))))
   \<and> fresh_entry (world_of env_licensed (always (attempt_with (reply 200 sample_data)))) = None
   \<and> previous_entry (world_of env_licensed (always (attempt_with (reply 200 sample_data)))) = None
   \<and> network_calls (fst (snd (resolve_many 1
        (world_of env_licensed (always (attempt_with (reply 200 sample_data))))))) = 0"
  by code_simp

text \<open>
  C5, amended: with a key configured, outside the build phase and no promise in flight,
  \<open>N \<ge> 1\<close> calls of \<open>fetchLicense\<close> made before the promise settles all follow the
  same promise and start one producer (one \<open>cache.withCache\<close> call); once the promise
  has settled the slot is empty and the next call starts a new one. \<open>N\<close> calls of
  \<open>getEnterpriseLicense\<close> start no producer and cause no network call.
\<close>

theorem C5_single_flight:
  assumes "truthy (ENTERPRISE_LICENSE_KEY (environment w))"
    and "\<not> build_phase (environment w)"
    and "fetchLicensePromise w = None"
    and "1 \<le> N"
    and "memo_ok w"
  shows "run (replicate N Call) w =
           (replicate N (Follows (promises w)), [WithCache FETCH_LICENSE_TTL_MS],
            w\<lparr>fetchLicensePromise := Some (promises w), promises := promises w + 1\<rparr>)
         \<and> producer_starts (fst (snd (run (replicate N Call) w))) = 1
         \<and> fetchLicensePromise (snd (snd (run (replicate N Call @ [Settle]) w))) = None
         \<and> run (replicate N Call @ [Settle, Call]) w =
             (replicate N (Follows (promises w)) @ [Follows (promises w + 1)],
              [WithCache FETCH_LICENSE_TTL_MS, WithCache FETCH_LICENSE_TTL_MS],
              w\<lparr>fetchLicensePromise := Some (promises w + 1), promises := promises w + 2\<rparr>)
         \<and> network_calls (fst (snd (resolve_many N w))) = 0
         \<and> producer_starts (fst (snd (resolve_many N w))) = 0"
proof -
  note calls = run_calls [OF assms(1-4)]
  let ?w1 = "w\<lparr>fetchLicensePromise := Some (promises w), promises := Suc (promises w)\<rparr>"
  have settled: "run (replicate N Call @ [Settle]) w =
      (replicate N (Follows (promises w)), [WithCache FETCH_LICENSE_TTL_MS], finally_callback ?w1)"
    by (simp add: run_append calls)
  have next_call: "fetchLicense (finally_callback ?w1) =
      (Follows (Suc (promises w)), [WithCache FETCH_LICENSE_TTL_MS],
       w\<lparr>fetchLicensePromise := Some (Suc (promises w)), promises := Suc (Suc (promises w))\<rparr>)"
    using assms(1,2) by (simp add: fetchLicense_def finally_callback_def Let_def)
  have "run (replicate N Call @ [Settle, Call]) w =
             (replicate N (Follows (promises w)) @ [Follows (promises w + 1)],
              [WithCache FETCH_LICENSE_TTL_MS, WithCache FETCH_LICENSE_TTL_MS],
              w\<lparr>fetchLicensePromise := Some (promises w + 1), promises := promises w + 2\<rparr>)"
    by (simp add: run_append calls next_call)
  moreover have "fetchLicensePromise (snd (snd (run (replicate N Call @ [Settle]) w))) = None"
    by (simp add: settled finally_callback_def)
  moreover have "producer_starts (fst (snd (run (replicate N Call) w))) = 1"
    by (simp add: calls producer_starts_def)
  moreover have "network_calls (fst (snd (resolve_many N w))) = 0"
    "producer_starts (fst (snd (resolve_many N w))) = 0"
    by (simp_all add: resolve_many_quiet [OF assms(5)] network_calls_def producer_starts_def)
  ultimately show ?thesis
    using calls by simp
qed

text \<open>C5, amended, at three concurrent calls followed by a settlement and a fourth call.\<close>

theorem C5_single_flight_witness:
  "truthy (ENTERPRISE_LICENSE_KEY (environment (world_of env_licensed (always (attempt_with (reply 200 sample_data))))))
   \<and> \<not> build_phase (environment (world_of env_licensed (always (attempt_with (reply 200 sample_data)))))
   \<and> fetchLicensePromise (world_of env_licensed (always (attempt_with (reply 200 sample_data)))) = None
   \<and> (1::nat) \<le> 3
   \<and> memo_ok (world_of env_licensed (always (attempt_with (reply 200 sample_data))))
   \<and> fst (run [Call, Call, Call] (world_of env_licensed (always (attempt_with (reply 200 sample_data)))))
       = [Follows 0, Follows 0, Follows 0]
   \<and> producer_starts (fst (snd (run [Call, Call, Call]
        (world_of env_licensed (always (attempt_with (reply 200 sample_data))))))) = 1
   \<and> fst (run [Call, Call, Call, Settle, Call]
        (world_of env_licensed (always (attempt_with (reply 200 sample_data)))))
       = [Follows 0, Follows 0, Follows 0, Follows 1]"
proof -
  let ?w = "world_of env_licensed (always (attempt_with (reply 200 sample_data)))"
  have h: "truthy (ENTERPRISE_LICENSE_KEY (environment ?w))"
    "\<not> build_phase (environment ?w)"
    "fetchLicensePromise ?w = None"
    "(1::nat) \<le> 3"
    "memo_ok ?w"
    by (simp_all add: world_of_def env_licensed_def truthy_def build_phase_def memo_ok_def)
  have p: "promises ?w = 0"
    by (simp add: world_of_def)
  have r: "replicate 3 Call = [Call, Call, Call]"
    by (simp add: numeral_3_eq_3)
  show ?thesis
    using h C5_single_flight [OF h]
    by (simp add: p r numeral_3_eq_3 producer_starts_def del: run.simps)
qed

end
